theory Spec2Isabelle
  imports Main "HOL-Library.Code_Target_Nat"
begin

section \<open>Data model of \<open>tableArt.tsx\<close>\<close>

text \<open>
  One artwork row, as the type \<open>workTableProps\<close> declares it. The field \<open>id\<close> of the
  source is called \<open>row_id\<close> here, since \<open>id\<close> is the identity function of HOL. The
  identifiers the listing endpoint sends are whole numbers, so the \<open>number\<close> fields are
  integers.
\<close>

record workTableProps =
  row_id :: int
  title :: string
  place_of_origin :: string
  artist_display :: string
  inscriptions :: string
  date_start :: int
  date_end :: int

text \<open>
  The four state cells of the hook \<open>useTableArt\<close> (lines 41 to 44): the rows of the page
  that was fetched last, the loading flag, the total the server reported, and the error
  message (\<open>None\<close> is \<open>null\<close>).
\<close>

record hook_state =
  data :: "workTableProps list"
  loading :: bool
  totalRecords :: int
  error :: "string option"

text \<open>
  The state of the component \<open>TableArt\<close> (lines 74 to 80): the zero-based page index, the
  set of selected identifiers, the pending count of the bulk select, and the state of the
  hook it calls.
\<close>

record view_state =
  page :: int
  selectedIds :: "int set"
  selectCount :: int
  hook :: hook_state

definition rowsPerPage :: int where
  "rowsPerPage = 12"

definition rows :: "view_state \<Rightarrow> workTableProps list" where
  "rows s = data (hook s)"

section \<open>Selection tracker\<close>

text \<open>Line 82: \<open>rows.filter(row => selectedIds.has(row.id))\<close>.\<close>

definition pageSelection :: "view_state \<Rightarrow> workTableProps list" where
  "pageSelection s = filter (\<lambda>row. row_id row \<in> selectedIds s) (rows s)"

text \<open>Line 87: \<open>selectedIds.size\<close>.\<close>

definition selectionCount :: "view_state \<Rightarrow> nat" where
  "selectionCount s = card (selectedIds s)"

text \<open>
  Lines 95 to 101, the body of the \<open>forEach\<close> of \<open>onSelectionChange\<close>: a row whose
  identifier some checked row carries is added to the copy of the set, any other row of
  the page is deleted from it.
\<close>

definition reconcile_row :: "workTableProps list \<Rightarrow> workTableProps \<Rightarrow> int set \<Rightarrow> int set" where
  "reconcile_row val row next =
     (if list_ex (\<lambda>v. row_id v = row_id row) val then insert (row_id row) next
      else next - {row_id row})"

text \<open>Lines 93 to 103. The argument is called \<open>value\<close> in the source.\<close>

definition onSelectionChange :: "workTableProps list \<Rightarrow> view_state \<Rightarrow> view_state" where
  "onSelectionChange val s =
     s\<lparr>selectedIds := fold (reconcile_row val) (rows s) (selectedIds s)\<rparr>"

text \<open>Line 107: the rows of the page that are not selected, in display order.\<close>

definition available :: "view_state \<Rightarrow> workTableProps list" where
  "available s = filter (\<lambda>r. row_id r \<notin> selectedIds s) (rows s)"

text \<open>
  Lines 105 to 114. \<open>slice(0, selectCount)\<close> keeps the first \<open>selectCount\<close> elements, all
  of them when there are fewer. Hiding the overlay panel changes no state of this
  component and is left out.
\<close>

definition handleCustomSelect :: "view_state \<Rightarrow> view_state" where
  "handleCustomSelect s =
     (if selectCount s \<le> 0 then s
      else
        let toSelect = take (nat (selectCount s)) (available s);
            next = fold (\<lambda>r acc. insert (row_id r) acc) toSelect (selectedIds s)
        in s\<lparr>selectedIds := next, selectCount := 0\<rparr>)"

section \<open>Data fetcher\<close>

text \<open>
  The numbers of the source are IEEE 754 doubles. The ones this component handles are
  whole, and an integer of the model stands for the double of that value. Whole numbers
  up to \<open>2 ^ 53 = 9007199254740992\<close> in magnitude are doubles, and sums of them are exact
  as long as they stay in that range; a larger result is rounded to the nearest double,
  to the one with the even significand when two are equally near.

  \<open>binary_exponent v\<close> is the number of low bits a double drops at the magnitude of \<open>v\<close>:
  the quotient of \<open>v\<close> by that power of two is the 53-bit significand.
\<close>

fun binary_exponent :: "nat \<Rightarrow> nat" where
  "binary_exponent v =
     (if v < 9007199254740992 then 0 else Suc (binary_exponent (v div 2)))"

declare binary_exponent.simps [simp del]

definition round_to_double :: "nat \<Rightarrow> nat" where
  "round_to_double v =
     (let e = binary_exponent v; q = v div 2 ^ e; r = v mod 2 ^ e
      in if 2 ^ e < 2 * r \<or> (2 * r = 2 ^ e \<and> odd q) then (q + 1) * 2 ^ e else q * 2 ^ e)"

text \<open>
  The \<open>+\<close> of the source on two whole numbers (line 51: \<open>page + 1\<close>): the exact sum,
  rounded. Adding 1 to a double never leaves the range of the doubles.
\<close>

definition js_add :: "int \<Rightarrow> int \<Rightarrow> int" where
  "js_add a b =
     (if a + b < 0 then - int (round_to_double (nat (- (a + b))))
      else int (round_to_double (nat (a + b))))"

text \<open>The decimal digits of a natural number, most significant first.\<close>

definition digit_char :: "nat \<Rightarrow> char" where
  "digit_char d = char_of (48 + d)"

fun digits :: "nat \<Rightarrow> string" where
  "digits n = (if n < 10 then [digit_char n] else digits (n div 10) @ [digit_char (n mod 10)])"

declare digits.simps [simp del]

text \<open>
  \<open>Number.prototype.toString\<close> prints the decimal with the fewest significant digits
  that still rounds to the number, the nearest one when there are several (and of two
  equally near the one with the even last digit). \<open>shortest_decimal j v\<close> looks for it
  among the multiples of \<open>10 ^ j\<close> next to \<open>v\<close>, then of \<open>10 ^ (j - 1)\<close>, and so on down
  to \<open>v\<close> itself.
\<close>

fun shortest_decimal :: "nat \<Rightarrow> nat \<Rightarrow> nat" where
  "shortest_decimal 0 v = v"
| "shortest_decimal (Suc j) v =
     (let p = 10 ^ Suc j; lo = (v div p) * p; hi = lo + p;
          lo_ok = (round_to_double lo = v); hi_ok = (round_to_double hi = v)
      in if lo_ok \<and> hi_ok then
           (if v - lo < hi - v then lo
            else if hi - v < v - lo then hi
            else if even (v div p) then lo else hi)
         else if lo_ok then lo
         else if hi_ok then hi
         else shortest_decimal j v)"

text \<open>
  The digits are printed in full when the number has at most 21 of them, and otherwise
  as the first significant digit, a point and the other significant digits if there are
  any, and \<open>e+\<close> with the decimal exponent.
\<close>

definition strip_zeros :: "string \<Rightarrow> string" where
  "strip_zeros ds = rev (dropWhile (\<lambda>c. c = CHR ''0'') (rev ds))"

definition print_decimal :: "nat \<Rightarrow> string" where
  "print_decimal y =
     (let ds = digits y; n = length ds
      in if n \<le> 21 then ds
         else let s = strip_zeros ds
              in take 1 s @ (if 1 < length s then CHR ''.'' # drop 1 s else [])
                 @ ''e+'' @ digits (n - 1))"

text \<open>
  \<open>Number.prototype.toString\<close> on a whole number. Up to \<open>2 ^ 53\<close> every whole number is
  a double of its own, so that no shorter decimal rounds to it and its digits are printed
  as they are.
\<close>

definition number_string :: "nat \<Rightarrow> string" where
  "number_string v =
     (if v \<le> 9007199254740992 then print_decimal v
      else print_decimal (shortest_decimal (length (digits v)) v))"

definition toString :: "int \<Rightarrow> string" where
  "toString n = (if n < 0 then CHR ''-'' # number_string (nat (- n)) else number_string (nat n))"

text \<open>
  \<open>URLSearchParams.prototype.toString\<close>: the pairs as \<open>name=value\<close>, joined by \<open>&\<close>,
  names and values in the form encoding: letters, digits and \<open>* - . _\<close> stay, a space
  becomes \<open>+\<close>, and any other byte becomes \<open>%\<close> and its two upper-case hexadecimal
  digits.
\<close>

definition form_unreserved :: "char \<Rightarrow> bool" where
  "form_unreserved c =
     (let k = (of_char c :: nat)
      in (48 \<le> k \<and> k \<le> 57) \<or> (65 \<le> k \<and> k \<le> 90) \<or> (97 \<le> k \<and> k \<le> 122)
         \<or> k = 42 \<or> k = 45 \<or> k = 46 \<or> k = 95)"

definition hex_digit :: "nat \<Rightarrow> char" where
  "hex_digit d = (if d < 10 then char_of (48 + d) else char_of (55 + d))"

definition form_encode_char :: "char \<Rightarrow> string" where
  "form_encode_char c =
     (if form_unreserved c then [c]
      else if c = CHR '' '' then ''+''
      else [CHR ''%'', hex_digit ((of_char c :: nat) div 16), hex_digit ((of_char c :: nat) mod 16)])"

definition form_encode :: "string \<Rightarrow> string" where
  "form_encode cs = concat (map form_encode_char cs)"

fun urlSearchParams :: "(string \<times> string) list \<Rightarrow> string" where
  "urlSearchParams [] = []"
| "urlSearchParams [(k, v)] = form_encode k @ ''='' @ form_encode v"
| "urlSearchParams ((k, v) # kvs) =
     form_encode k @ ''='' @ form_encode v @ ''&'' @ urlSearchParams kvs"

definition API_BASE :: string where
  "API_BASE = ''https://api.artic.edu/api/v1/artworks''"

text \<open>
  What the network answers to one request. A property of the parsed body is absent
  (\<open>Undefined\<close>), \<open>null\<close> or present; a present \<open>data\<close> is a list of rows and a
  present \<open>total\<close> a whole number, as the types of the state cells they are stored in
  require. \<open>res.json()\<close> rejects (\<open>Unparsable\<close>), yields \<open>null\<close> or yields an object.
  \<open>fetch\<close> itself rejects (\<open>NetworkError\<close>) or resolves to a response with its \<open>ok\<close>
  flag.
\<close>

datatype 'a js_field = Undefined | Null | Value 'a

record pagination =
  total :: "int js_field"

record api_result =
  result_data :: "workTableProps list js_field"
  result_pagination :: "pagination js_field"

datatype body = Unparsable | NullBody | Object api_result

datatype fetch_result = NetworkError | Response bool body

definition fetch_error_message :: string where
  "fetch_error_message = ''Failed to fetch artworks''"

text \<open>Lines 50 to 54: the address the request goes to.\<close>

definition request_url :: "int \<Rightarrow> int \<Rightarrow> string" where
  "request_url pg limit =
     (let params = urlSearchParams [(''page'', toString (js_add pg 1)), (''limit'', toString limit)]
      in API_BASE @ ''?'' @ params)"

text \<open>
  Lines 46 to 64, with the address of lines 50 to 54 in \<open>request_url\<close>. The result is
  the list of requests sent, in order, and the state of the hook when the promise has
  settled. Every \<open>throw\<close> inside the \<open>try\<close> (a rejected
  \<open>fetch\<close>, a response that is not \<open>ok\<close>, a rejected \<open>res.json()\<close>, the property read
  \<open>result.data\<close> on \<open>null\<close>) ends in the \<open>catch\<close> of line 59, which sets the message
  and nothing else. \<open>x || d\<close> is \<open>d\<close> when \<open>x\<close> is absent, \<open>null\<close> or zero.
\<close>

definition fetchData ::
  "(string \<Rightarrow> fetch_result) \<Rightarrow> int \<Rightarrow> int \<Rightarrow> hook_state \<Rightarrow> string list \<times> hook_state" where
  "fetchData net pg limit h =
     (let h1 = h\<lparr>loading := True, error := None\<rparr>;
          url = request_url pg limit;
          failed = h1\<lparr>error := Some fetch_error_message\<rparr>;
          h2 = (case net url of
                  NetworkError \<Rightarrow> failed
                | Response ok b \<Rightarrow>
                    if \<not> ok then failed
                    else (case b of
                            Unparsable \<Rightarrow> failed
                          | NullBody \<Rightarrow> failed
                          | Object result \<Rightarrow>
                              h1\<lparr>data := (case result_data result of
                                             Value d \<Rightarrow> d | _ \<Rightarrow> []),
                                 totalRecords := (case result_pagination result of
                                             Value p \<Rightarrow> (case total p of
                                                          Value n \<Rightarrow> (if n = 0 then 0 else n)
                                                        | _ \<Rightarrow> 0)
                                           | _ \<Rightarrow> 0)\<rparr>))
      in ([url], h2\<lparr>loading := False\<rparr>))"

section \<open>View\<close>

text \<open>
  Line 89: \<open>setPage(e.page ?? 0)\<close>; the event's \<open>page\<close> is optional.
\<close>

definition onPageChange :: "int option \<Rightarrow> view_state \<Rightarrow> view_state" where
  "onPageChange e s = s\<lparr>page := (case e of None \<Rightarrow> 0 | Some p \<Rightarrow> p)\<rparr>"

text \<open>
  A page event of the table as the component sees it: \<open>onPageChange\<close>, then the effect of
  line 66, which runs \<open>fetchData\<close> again only when the callback was rebuilt, that is when
  \<open>page\<close> has changed (\<open>limit\<close> is the constant \<open>rowsPerPage\<close>).
\<close>

definition onPage ::
  "(string \<Rightarrow> fetch_result) \<Rightarrow> int option \<Rightarrow> view_state \<Rightarrow> string list \<times> view_state" where
  "onPage net e s =
     (let s' = onPageChange e s
      in if page s' = page s then ([], s')
         else (fst (fetchData net (page s') rowsPerPage (hook s')),
               s'\<lparr>hook := snd (fetchData net (page s') rowsPerPage (hook s'))\<rparr>))"

text \<open>A sequence of page events, each answered by the network of its moment.\<close>

fun onPages :: "((string \<Rightarrow> fetch_result) \<times> int option) list \<Rightarrow> view_state \<Rightarrow> view_state" where
  "onPages [] s = s"
| "onPages ((net, e) # es) s = onPages es (snd (onPage net e s))"

text \<open>
  The initial values of the \<open>useState\<close> calls (lines 41 to 44 and 74 to 77), and the first
  render: the effect of line 66 fetches the page of the initial state.
\<close>

definition initial_hook :: hook_state where
  "initial_hook = \<lparr>data = [], loading = False, totalRecords = 0, error = None\<rparr>"

definition initial_view :: view_state where
  "initial_view = \<lparr>page = 0, selectedIds = {}, selectCount = 0, hook = initial_hook\<rparr>"

definition mount :: "(string \<Rightarrow> fetch_result) \<Rightarrow> string list \<times> view_state" where
  "mount net =
     (fst (fetchData net (page initial_view) rowsPerPage (hook initial_view)),
      initial_view\<lparr>hook := snd (fetchData net (page initial_view) rowsPerPage (hook initial_view))\<rparr>)"

text \<open>
  Line 121, the button of the error panel: \<open>window.location.reload()\<close> drops the state
  of the component and mounts it again.
\<close>

definition retry :: "(string \<Rightarrow> fetch_result) \<Rightarrow> view_state \<Rightarrow> string list \<times> view_state" where
  "retry net s = mount net"

text \<open>
  What the component returns (lines 116 to 264): the error card when \<open>error\<close> is a
  non-empty string, otherwise the page with the table, of which the properties of lines
  202 to 211 are kept.
\<close>

record table_props =
  table_value :: "workTableProps list"
  table_first :: int
  table_totalRecords :: int
  table_loading :: bool
  table_selection :: "workTableProps list"

datatype rendered = ErrorPanel string | TablePage table_props

definition render :: "view_state \<Rightarrow> rendered" where
  "render s =
     (case error (hook s) of
        Some msg \<Rightarrow>
          if msg \<noteq> [] then ErrorPanel msg
          else TablePage \<lparr>table_value = rows s, table_first = page s * rowsPerPage,
                 table_totalRecords = totalRecords (hook s), table_loading = loading (hook s),
                 table_selection = pageSelection s\<rparr>
      | None \<Rightarrow>
          TablePage \<lparr>table_value = rows s, table_first = page s * rowsPerPage,
            table_totalRecords = totalRecords (hook s), table_loading = loading (hook s),
            table_selection = pageSelection s\<rparr>)"

text \<open>
  Reading a request back: the number a non-empty string of decimal digits denotes, and
  nothing for any other string. It is used to say which page and limit a request asks
  for.
\<close>

definition digit_value :: "char \<Rightarrow> nat" where
  "digit_value c = of_char c - 48"

definition is_digit :: "char \<Rightarrow> bool" where
  "is_digit c = (48 \<le> (of_char c :: nat) \<and> (of_char c :: nat) \<le> 57)"

fun parse_digits :: "string \<Rightarrow> nat \<Rightarrow> nat option" where
  "parse_digits [] acc = Some acc"
| "parse_digits (c # cs) acc =
     (if is_digit c then parse_digits cs (10 * acc + digit_value c) else None)"

definition parse_decimal :: "string \<Rightarrow> nat option" where
  "parse_decimal cs = (if cs = [] then None else parse_digits cs 0)"

text \<open>
  The ways the \<open>try\<close> block of \<open>fetchData\<close> throws: \<open>fetch\<close> rejects, the status is not a
  success, or the body cannot be read as an object.
\<close>

fun throws :: "fetch_result \<Rightarrow> bool" where
  "throws NetworkError = True"
| "throws (Response ok b) = (\<not> ok \<or> b = Unparsable \<or> b = NullBody)"

section \<open>Example inputs\<close>

definition example_row :: "int \<Rightarrow> workTableProps" where
  "example_row i =
     \<lparr>row_id = i, title = ''Untitled'', place_of_origin = [], artist_display = [],
      inscriptions = [], date_start = 0, date_end = 0\<rparr>"

definition example_view :: view_state where
  "example_view =
     \<lparr>page = 0, selectedIds = {2, 7}, selectCount = 2,
      hook = \<lparr>data = [example_row 1, example_row 2, example_row 3], loading = False,
              totalRecords = 100, error = None\<rparr>\<rparr>"

definition example_net :: "workTableProps list \<Rightarrow> string \<Rightarrow> fetch_result" where
  "example_net rs url =
     Response True (Object \<lparr>result_data = Value rs,
                            result_pagination = Value \<lparr>total = Value 100\<rparr>\<rparr>)"

section \<open>Properties of the selection tracker\<close>

lemma reconcile_row_member:
  "i \<in> reconcile_row val r sel \<longleftrightarrow>
     (if i = row_id r then i \<in> row_id ` set val else i \<in> sel)"
proof (cases "list_ex (\<lambda>v. row_id v = row_id r) val")
  case True
  then have "row_id r \<in> row_id ` set val"
    unfolding list_ex_iff image_iff by metis
  with True show ?thesis
    by (auto simp add: reconcile_row_def)
next
  case False
  then have "row_id r \<notin> row_id ` set val"
    unfolding list_ex_iff image_iff by metis
  with False show ?thesis
    by (auto simp add: reconcile_row_def)
qed

lemma fold_reconcile_member:
  "i \<in> fold (reconcile_row val) rs sel \<longleftrightarrow>
     (if i \<in> row_id ` set rs then i \<in> row_id ` set val else i \<in> sel)"
proof (induction rs arbitrary: sel)
  case Nil
  show ?case by simp
next
  case (Cons r rs)
  have "i \<in> fold (reconcile_row val) (r # rs) sel
      \<longleftrightarrow> i \<in> fold (reconcile_row val) rs (reconcile_row val r sel)"
    by simp
  also have "\<dots> \<longleftrightarrow> (if i \<in> row_id ` set rs then i \<in> row_id ` set val
      else i \<in> reconcile_row val r sel)"
    by (rule Cons.IH)
  also have "\<dots> \<longleftrightarrow> (if i \<in> row_id ` set (r # rs) then i \<in> row_id ` set val else i \<in> sel)"
    by (simp add: reconcile_row_member)
  finally show ?case .
qed

lemma selectedIds_onSelectionChange:
  "selectedIds (onSelectionChange val s) = fold (reconcile_row val) (rows s) (selectedIds s)"
  by (simp add: onSelectionChange_def)

lemma fold_insert_ids:
  "fold (\<lambda>r acc. insert (row_id r) acc) rs sel = sel \<union> row_id ` set rs"
  by (induction rs arbitrary: sel) auto

lemma selectedIds_handleCustomSelect:
  "0 < selectCount s \<Longrightarrow>
     selectedIds (handleCustomSelect s)
       = selectedIds s \<union> row_id ` set (take (nat (selectCount s)) (available s))"
  by (simp add: handleCustomSelect_def Let_def fold_insert_ids)

lemma available_unselected: "r \<in> set (available s) \<Longrightarrow> row_id r \<notin> selectedIds s"
  by (simp add: available_def)

lemma available_rows: "set (available s) \<subseteq> set (rows s)"
  by (auto simp add: available_def)

lemma checked_row_iff_checked_id:
  assumes "distinct (map row_id rs)" and "set val \<subseteq> set rs" and "r \<in> set rs"
  shows "row_id r \<in> row_id ` set val \<longleftrightarrow> r \<in> set val"
proof
  assume "row_id r \<in> row_id ` set val"
  then obtain v where v: "v \<in> set val" "row_id r = row_id v" by blast
  from assms(1) have "inj_on row_id (set rs)" by (simp add: distinct_map)
  moreover from v(1) assms(2) have "v \<in> set rs" by blast
  ultimately have "r = v" using assms(3) v(2) by (simp add: inj_on_def)
  with v(1) show "r \<in> set val" by simp
next
  assume "r \<in> set val"
  then show "row_id r \<in> row_id ` set val" by (rule imageI)
qed

text \<open>
  Claim C1. After \<open>onSelectionChange\<close>, the identifier of a row of the current page is
  selected exactly when the checked list holds a row with that identifier, an identifier
  that no row of the page carries is selected exactly when it was before, and with an
  empty checked list the new set is the old one without the identifiers of the page.
  When the rows of the page have distinct identifiers and the checked rows are rows of
  the page, a row of the page is selected exactly when it is itself in the checked list.
\<close>

theorem onSelectionChange_reconciles:
  "(\<forall>r \<in> set (rows s).
      row_id r \<in> selectedIds (onSelectionChange val s) \<longleftrightarrow> row_id r \<in> row_id ` set val)
   \<and> (\<forall>i. i \<notin> row_id ` set (rows s) \<longrightarrow>
      (i \<in> selectedIds (onSelectionChange val s) \<longleftrightarrow> i \<in> selectedIds s))
   \<and> selectedIds (onSelectionChange [] s) = selectedIds s - row_id ` set (rows s)
   \<and> (distinct (map row_id (rows s)) \<and> set val \<subseteq> set (rows s) \<longrightarrow>
      (\<forall>r \<in> set (rows s).
         row_id r \<in> selectedIds (onSelectionChange val s) \<longleftrightarrow> r \<in> set val))"
proof -
  have a: "\<forall>r \<in> set (rows s).
      row_id r \<in> selectedIds (onSelectionChange val s) \<longleftrightarrow> row_id r \<in> row_id ` set val"
    by (simp add: selectedIds_onSelectionChange fold_reconcile_member)
  have b: "\<forall>i. i \<notin> row_id ` set (rows s) \<longrightarrow>
      (i \<in> selectedIds (onSelectionChange val s) \<longleftrightarrow> i \<in> selectedIds s)"
    by (simp add: selectedIds_onSelectionChange fold_reconcile_member)
  have c: "selectedIds (onSelectionChange [] s) = selectedIds s - row_id ` set (rows s)"
    by (auto simp add: selectedIds_onSelectionChange fold_reconcile_member split: if_splits)
  have d: "distinct (map row_id (rows s)) \<and> set val \<subseteq> set (rows s) \<longrightarrow>
      (\<forall>r \<in> set (rows s).
         row_id r \<in> selectedIds (onSelectionChange val s) \<longleftrightarrow> r \<in> set val)"
    using a checked_row_iff_checked_id [of "rows s" val] by blast
  from a b c d show ?thesis by blast
qed

theorem onSelectionChange_reconciles_witness:
  "1 \<in> selectedIds (onSelectionChange [example_row 1] example_view)
   \<and> 2 \<notin> selectedIds (onSelectionChange [example_row 1] example_view)
   \<and> 3 \<notin> selectedIds (onSelectionChange [example_row 1] example_view)
   \<and> 7 \<in> selectedIds (onSelectionChange [example_row 1] example_view)
   \<and> selectedIds (onSelectionChange [] example_view) = {7}"
proof -
  have r: "rows example_view = [example_row 1, example_row 2, example_row 3]"
    by (simp add: rows_def example_view_def)
  have i: "\<And>k. row_id (example_row k) = k"
    by (simp add: example_row_def)
  have n: "example_row 2 \<noteq> example_row 1" "example_row 3 \<noteq> example_row 1"
    by (simp_all add: example_row_def)
  have s: "selectedIds example_view = {2, 7}"
    by (simp add: example_view_def)
  have d: "{2, 7} - {1, 2, 3} = {7::int}"
    by auto
  show ?thesis
    using onSelectionChange_reconciles [of example_view "[example_row 1]"]
    by (simp add: r i n s d)
qed

text \<open>
  Claim C8. A row is among the rows marked selected exactly when it is a row of the
  current page and its identifier is in the selection set.
\<close>

theorem pageSelection_is_intersection:
  "(r \<in> set (pageSelection s) \<longleftrightarrow> r \<in> set (rows s) \<and> row_id r \<in> selectedIds s)
   \<and> set (pageSelection s) = set (rows s) \<inter> {r. row_id r \<in> selectedIds s}"
  by (auto simp add: pageSelection_def)

theorem pageSelection_is_intersection_witness:
  "set (pageSelection example_view) = {example_row 2}"
proof -
  have "set (rows example_view) \<inter> {r. row_id r \<in> selectedIds example_view} = {example_row 2}"
    by (auto simp add: rows_def example_view_def example_row_def)
  then show ?thesis
    using pageSelection_is_intersection [of "example_row 2" example_view] by simp
qed

text \<open>
  Claim C3. With a pending count between one and the number of unselected rows of the
  page, \<open>handleCustomSelect\<close> adds the identifiers of the first \<open>count\<close> unselected rows,
  in display order, to the selection set (that many rows, none of them selected before)
  and sets the pending count to zero; with a count of zero or less it changes nothing.
\<close>

theorem handleCustomSelect_selects_first:
  "(0 < selectCount s \<and> selectCount s \<le> int (length (available s)) \<longrightarrow>
      selectedIds (handleCustomSelect s)
        = selectedIds s \<union> row_id ` set (take (nat (selectCount s)) (available s))
      \<and> int (length (take (nat (selectCount s)) (available s))) = selectCount s
      \<and> row_id ` set (take (nat (selectCount s)) (available s)) \<inter> selectedIds s = {}
      \<and> selectCount (handleCustomSelect s) = 0)
   \<and> (selectCount s \<le> 0 \<longrightarrow> handleCustomSelect s = s)"
proof -
  have fresh: "row_id ` set (take (nat (selectCount s)) (available s)) \<inter> selectedIds s = {}"
    using available_unselected [of _ s] by (auto dest: in_set_takeD)
  have pos: "0 < selectCount s \<Longrightarrow> selectCount (handleCustomSelect s) = 0"
    by (simp add: handleCustomSelect_def Let_def)
  have len: "0 < selectCount s \<Longrightarrow> selectCount s \<le> int (length (available s)) \<Longrightarrow>
      int (length (take (nat (selectCount s)) (available s))) = selectCount s"
    by simp
  have noop: "selectCount s \<le> 0 \<Longrightarrow> handleCustomSelect s = s"
    by (simp add: handleCustomSelect_def)
  from fresh pos len noop selectedIds_handleCustomSelect [of s] show ?thesis
    by blast
qed

theorem handleCustomSelect_selects_first_witness:
  "selectedIds (handleCustomSelect example_view) = {1, 2, 3, 7}
   \<and> selectCount (handleCustomSelect example_view) = 0
   \<and> handleCustomSelect (example_view\<lparr>selectCount := 0\<rparr>) = example_view\<lparr>selectCount := 0\<rparr>"
proof -
  have a: "available example_view = [example_row 1, example_row 3]"
    by (simp add: available_def rows_def example_view_def example_row_def)
  have c: "selectCount example_view = 2" "selectedIds example_view = {2, 7}"
    by (simp_all add: example_view_def)
  have i: "\<And>k. row_id (example_row k) = k"
    by (simp add: example_row_def)
  have u: "{1, 3, 2, 7} = {1, 2, 3, 7::int}"
    by auto
  show ?thesis
    using handleCustomSelect_selects_first [of example_view]
      handleCustomSelect_selects_first [of "example_view\<lparr>selectCount := 0\<rparr>"]
    by (simp add: a c i u)
qed

lemma handleCustomSelect_added:
  "selectedIds (handleCustomSelect s) - selectedIds s \<subseteq> row_id ` set (available s)"
proof (cases "0 < selectCount s")
  case True
  then show ?thesis
    by (auto simp add: selectedIds_handleCustomSelect dest: in_set_takeD)
next
  case False
  then show ?thesis by (simp add: handleCustomSelect_def)
qed

text \<open>
  Claim C4. With a pending count above the number of unselected rows of the page,
  \<open>handleCustomSelect\<close> selects all of them and nothing else: the identifiers it adds are
  identifiers of unselected rows of the page, and there are no more of them than such
  rows.
\<close>

theorem handleCustomSelect_clamped:
  "int (length (available s)) < selectCount s \<Longrightarrow>
     selectedIds (handleCustomSelect s) = selectedIds s \<union> row_id ` set (available s)
     \<and> selectedIds (handleCustomSelect s) - selectedIds s \<subseteq> row_id ` set (available s)
     \<and> card (selectedIds (handleCustomSelect s) - selectedIds s) \<le> length (available s)"
proof -
  assume big: "int (length (available s)) < selectCount s"
  then have pos: "0 < selectCount s" by simp
  from big have all: "take (nat (selectCount s)) (available s) = available s" by simp
  have eq: "selectedIds (handleCustomSelect s) = selectedIds s \<union> row_id ` set (available s)"
    using selectedIds_handleCustomSelect [OF pos] by (simp add: all)
  have sub: "selectedIds (handleCustomSelect s) - selectedIds s \<subseteq> row_id ` set (available s)"
    by (rule handleCustomSelect_added)
  have "card (selectedIds (handleCustomSelect s) - selectedIds s) \<le> card (row_id ` set (available s))"
    using sub by (simp add: card_mono)
  also have "\<dots> \<le> card (set (available s))"
    by (simp add: card_image_le)
  also have "\<dots> \<le> length (available s)"
    by (rule card_length)
  finally have "card (selectedIds (handleCustomSelect s) - selectedIds s) \<le> length (available s)" .
  with eq sub show ?thesis by blast
qed

theorem handleCustomSelect_clamped_witness:
  "selectedIds (handleCustomSelect (example_view\<lparr>selectCount := 5\<rparr>)) = {1, 2, 3, 7}
   \<and> card (selectedIds (handleCustomSelect (example_view\<lparr>selectCount := 5\<rparr>)) - {2, 7}) \<le> 2"
proof -
  have a: "available (example_view\<lparr>selectCount := 5\<rparr>) = [example_row 1, example_row 3]"
    by (simp add: available_def rows_def example_view_def example_row_def)
  have c: "selectCount (example_view\<lparr>selectCount := 5\<rparr>) = 5"
    "selectedIds (example_view\<lparr>selectCount := 5\<rparr>) = {2, 7}"
    by (simp_all add: example_view_def)
  have i: "\<And>k. row_id (example_row k) = k"
    by (simp add: example_row_def)
  have u: "{1, 3, 2, 7} = {1, 2, 3, 7::int}"
    by auto
  show ?thesis
    using handleCustomSelect_clamped [of "example_view\<lparr>selectCount := 5\<rparr>"]
    by (simp add: a c i u)
qed

text \<open>
  Claim C9. \<open>handleCustomSelect\<close> removes no identifier from the selection set, and every
  identifier it adds is the identifier of a row of the current page.
\<close>

theorem handleCustomSelect_monotone:
  "selectedIds s \<subseteq> selectedIds (handleCustomSelect s)
   \<and> selectedIds (handleCustomSelect s) - selectedIds s \<subseteq> row_id ` set (rows s)"
proof -
  have "selectedIds s \<subseteq> selectedIds (handleCustomSelect s)"
  proof (cases "0 < selectCount s")
    case True
    then show ?thesis by (simp add: selectedIds_handleCustomSelect)
  next
    case False
    then show ?thesis by (simp add: handleCustomSelect_def)
  qed
  moreover have "selectedIds (handleCustomSelect s) - selectedIds s \<subseteq> row_id ` set (rows s)"
    using handleCustomSelect_added [of s] available_rows [of s] by blast
  ultimately show ?thesis by blast
qed

theorem handleCustomSelect_monotone_witness:
  "{2, 7} \<subseteq> selectedIds (handleCustomSelect example_view)
   \<and> selectedIds (handleCustomSelect example_view) - {2, 7} \<subseteq> {1, 2, 3}"
proof -
  have r: "rows example_view = [example_row 1, example_row 2, example_row 3]"
    by (simp add: rows_def example_view_def)
  have i: "\<And>k. row_id (example_row k) = k"
    by (simp add: example_row_def)
  have s: "selectedIds example_view = {2, 7}"
    by (simp add: example_view_def)
  show ?thesis
    using handleCustomSelect_monotone [of example_view]
    by (simp add: r i s)
qed

section \<open>Properties of page changes\<close>

lemma selectedIds_onPage: "selectedIds (snd (onPage net e s)) = selectedIds s"
  by (simp add: onPage_def onPageChange_def Let_def)

lemma selectedIds_onPages: "selectedIds (onPages steps s) = selectedIds s"
proof (induction steps arbitrary: s)
  case Nil
  show ?case by simp
next
  case (Cons step steps)
  obtain net e where step: "step = (net, e)" by (cases step)
  show ?case
    by (simp add: step Cons.IH selectedIds_onPage)
qed

text \<open>
  Claim C2. \<open>onPageChange\<close> leaves the selection set as it is, and so does any sequence
  of page events with the fetches they start, whatever the network answers; a row shown
  after the sequence is marked selected exactly when its identifier was in the selection
  set before it.
\<close>

theorem page_changes_keep_selection:
  "selectedIds (onPageChange e s) = selectedIds s
   \<and> selectedIds (onPages steps s) = selectedIds s
   \<and> (\<forall>r \<in> set (rows (onPages steps s)).
        r \<in> set (pageSelection (onPages steps s)) \<longleftrightarrow> row_id r \<in> selectedIds s)"
proof -
  have "selectedIds (onPageChange e s) = selectedIds s"
    by (simp add: onPageChange_def)
  moreover have "\<forall>r \<in> set (rows (onPages steps s)).
        r \<in> set (pageSelection (onPages steps s)) \<longleftrightarrow> row_id r \<in> selectedIds s"
    by (simp add: pageSelection_def selectedIds_onPages)
  ultimately show ?thesis
    by (simp add: selectedIds_onPages)
qed

theorem page_changes_keep_selection_witness:
  "selectedIds (onPages
       [(example_net [example_row 40], Some 3),
        (example_net [example_row 1, example_row 2, example_row 3], Some 0)] example_view) = {2, 7}
   \<and> example_row 2 \<in> set (pageSelection (onPages
       [(example_net [example_row 40], Some 3),
        (example_net [example_row 1, example_row 2, example_row 3], Some 0)] example_view))
   \<and> page (onPages
       [(example_net [example_row 40], Some 3),
        (example_net [example_row 1, example_row 2, example_row 3], Some 0)] example_view) = 0"
proof -
  let ?steps = "[(example_net [example_row 40], Some 3),
        (example_net [example_row 1, example_row 2, example_row 3], Some 0)]"
  have r: "rows (onPages ?steps example_view) = [example_row 1, example_row 2, example_row 3]"
    by (simp add: onPage_def onPageChange_def fetchData_def example_net_def example_view_def
        rows_def Let_def)
  have p: "page (onPages ?steps example_view) = 0"
    by (simp add: onPage_def onPageChange_def fetchData_def example_net_def example_view_def
        Let_def)
  have i: "\<And>k. row_id (example_row k) = k"
    by (simp add: example_row_def)
  have s: "selectedIds example_view = {2, 7}"
    by (simp add: example_view_def)
  show ?thesis
    using page_changes_keep_selection [of None example_view ?steps]
    by (simp add: r p i s del: onPages.simps)
qed

section \<open>Properties of the data fetcher\<close>

subsection \<open>Decimal digits\<close>

lemma is_digit_digit_char: "d < 10 \<Longrightarrow> is_digit (digit_char d)"
  by (simp add: is_digit_def digit_char_def)

lemma digit_value_char: "d < 10 \<Longrightarrow> digit_value (digit_char d) = d"
  by (simp add: digit_value_def digit_char_def)

lemma digits_small: "n < 10 \<Longrightarrow> digits n = [digit_char n]"
  by (subst digits.simps) simp

lemma digits_big: "\<not> n < 10 \<Longrightarrow> digits n = digits (n div 10) @ [digit_char (n mod 10)]"
  by (subst digits.simps) simp

lemma digits_nonempty: "digits n \<noteq> []"
  by (cases "n < 10") (simp_all add: digits_small digits_big)

lemma digits_are_digits: "c \<in> set (digits n) \<Longrightarrow> is_digit c"
proof (induction n rule: digits.induct)
  case (1 n)
  show ?case
  proof (cases "n < 10")
    case True
    with "1.prems" show ?thesis
      by (simp add: digits_small is_digit_digit_char)
  next
    case False
    with "1.prems" have "c \<in> set (digits (n div 10)) \<or> c = digit_char (n mod 10)"
      by (auto simp add: digits_big)
    then show ?thesis
    proof
      assume "c \<in> set (digits (n div 10))"
      with False show ?thesis by (rule "1.IH")
    next
      assume "c = digit_char (n mod 10)"
      then show ?thesis by (simp add: is_digit_digit_char)
    qed
  qed
qed

lemma parse_digits_snoc:
  "parse_digits (cs @ [c]) acc =
     (case parse_digits cs acc of
        None \<Rightarrow> None
      | Some a \<Rightarrow> if is_digit c then Some (10 * a + digit_value c) else None)"
  by (induction cs arbitrary: acc) simp_all

lemma parse_digits_digits: "parse_digits (digits n) 0 = Some n"
proof (induction n rule: digits.induct)
  case (1 n)
  show ?case
  proof (cases "n < 10")
    case True
    then show ?thesis
      by (simp add: digits_small is_digit_digit_char digit_value_char)
  next
    case False
    then have "parse_digits (digits (n div 10)) 0 = Some (n div 10)" by (rule "1.IH")
    with False show ?thesis
      by (simp add: digits_big parse_digits_snoc is_digit_digit_char digit_value_char)
  qed
qed

lemma parse_decimal_digits: "parse_decimal (digits n) = Some n"
  by (simp add: parse_decimal_def digits_nonempty parse_digits_digits)

lemma digits_inject:
  assumes "digits a = digits b"
  shows "a = b"
proof -
  have "Some a = parse_decimal (digits a)" by (simp only: parse_decimal_digits)
  also have "\<dots> = parse_decimal (digits b)" by (simp only: assms)
  also have "\<dots> = Some b" by (simp only: parse_decimal_digits)
  finally show ?thesis by simp
qed

lemma length_digits_le: "0 < k \<Longrightarrow> n < 10 ^ k \<Longrightarrow> length (digits n) \<le> k"
proof (induction n arbitrary: k rule: digits.induct)
  case (1 n)
  show ?case
  proof (cases "n < 10")
    case True
    with "1.prems" show ?thesis by (simp add: digits_small)
  next
    case False
    obtain k' where k: "k = Suc k'" using "1.prems"(1) by (cases k) auto
    from False "1.prems"(2) have "0 < k'"
      by (cases k') (auto simp add: k)
    moreover from "1.prems"(2) have "n div 10 < 10 ^ k'"
      by (simp add: k less_mult_imp_div_less mult.commute)
    ultimately have "length (digits (n div 10)) \<le> k'"
      using False by (intro "1.IH")
    with False show ?thesis by (simp add: digits_big k)
  qed
qed

lemma length_digits_ge2: "10 \<le> n \<Longrightarrow> 2 \<le> length (digits n)"
proof -
  assume "10 \<le> n"
  then have "digits n = digits (n div 10) @ [digit_char (n mod 10)]"
    by (simp add: digits_big)
  moreover have "1 \<le> length (digits (n div 10))"
    using digits_nonempty [of "n div 10"] by (cases "digits (n div 10)") auto
  ultimately show ?thesis by simp
qed

subsection \<open>Form encoding\<close>

lemma form_encode_char_digit: "is_digit c \<Longrightarrow> form_encode_char c = [c]"
  by (simp add: form_encode_char_def form_unreserved_def is_digit_def Let_def)

lemma form_encode_digit_string: "(\<And>c. c \<in> set cs \<Longrightarrow> is_digit c) \<Longrightarrow> form_encode cs = cs"
  by (induction cs) (simp_all add: form_encode_def form_encode_char_digit)

lemma form_encode_digits: "form_encode (digits n) = digits n"
  by (rule form_encode_digit_string) (rule digits_are_digits)

lemma form_encode_Cons: "form_encode (c # cs) = form_encode_char c @ form_encode cs"
  by (simp add: form_encode_def)

lemma form_encode_char_nonempty: "1 \<le> length (form_encode_char c)"
  by (simp add: form_encode_char_def)

lemma length_form_encode: "length cs \<le> length (form_encode cs)"
proof (induction cs)
  case Nil
  show ?case by simp
next
  case (Cons c cs)
  then show ?case
    using form_encode_char_nonempty [of c] by (simp add: form_encode_Cons)
qed

lemma form_encode_page: "form_encode ''page'' = ''page''"
  by code_simp

lemma form_encode_limit: "form_encode ''limit'' = ''limit''"
  by code_simp

lemma form_encode_char_minus: "form_encode_char (CHR ''-'') = ''-''"
  by code_simp

subsection \<open>Rounding to a double\<close>

lemma binary_exponent_small: "v < 9007199254740992 \<Longrightarrow> binary_exponent v = 0"
  by (subst binary_exponent.simps) simp

lemma binary_exponent_big:
  "\<not> v < 9007199254740992 \<Longrightarrow> binary_exponent v = Suc (binary_exponent (v div 2))"
  by (subst binary_exponent.simps) simp

lemma round_to_double_small: "v < 9007199254740992 \<Longrightarrow> round_to_double v = v"
  by (simp add: round_to_double_def binary_exponent_small)

lemma round_to_double_two53: "round_to_double 9007199254740992 = 9007199254740992"
  by (simp add: round_to_double_def binary_exponent_big binary_exponent_small)

lemma round_to_double_exact: "v \<le> 9007199254740992 \<Longrightarrow> round_to_double v = v"
  by (cases "v = 9007199254740992")
     (simp_all add: round_to_double_two53 round_to_double_small)

lemma power_binary_exponent_le: "0 < v \<Longrightarrow> 2 ^ binary_exponent v \<le> v"
proof (induction v rule: binary_exponent.induct)
  case (1 v)
  show ?case
  proof (cases "v < 9007199254740992")
    case True
    with "1.prems" show ?thesis by (simp add: binary_exponent_small)
  next
    case False
    then have "0 < v div 2" by simp
    with False have "2 ^ binary_exponent (v div 2) \<le> v div 2" by (rule "1.IH")
    then have "2 * 2 ^ binary_exponent (v div 2) \<le> 2 * (v div 2)" by simp
    also have "\<dots> \<le> v" by simp
    finally show ?thesis using False by (simp add: binary_exponent_big)
  qed
qed

lemma round_to_double_big:
  assumes "9007199254740992 \<le> v"
  shows "2 \<le> round_to_double v"
proof -
  let ?e = "binary_exponent v"
  from assms have pos: "0 < v" by simp
  from assms have "?e = Suc (binary_exponent (v div 2))"
    by (simp add: binary_exponent_big)
  then have two: "(2::nat) \<le> 2 ^ ?e" by simp
  have "2 ^ ?e \<le> v" using pos by (rule power_binary_exponent_le)
  then have q: "1 \<le> v div 2 ^ ?e"
    by (simp add: div_greater_zero_iff Suc_le_eq)
  have "2 ^ ?e \<le> (v div 2 ^ ?e) * 2 ^ ?e" using q by simp
  moreover have "(v div 2 ^ ?e) * 2 ^ ?e \<le> round_to_double v"
    by (simp add: round_to_double_def Let_def)
  ultimately show ?thesis using two by linarith
qed

lemma round_to_double_zero: "round_to_double 0 = 0"
  by (simp add: round_to_double_small)

lemma js_add_exact:
  "- 9007199254740992 \<le> a + b \<Longrightarrow> a + b \<le> 9007199254740992 \<Longrightarrow> js_add a b = a + b"
  by (simp add: js_add_def round_to_double_exact)

lemma js_add_one_is_one:
  assumes "js_add p 1 = 1"
  shows "p = 0"
proof (cases "p + 1 < 0")
  case True
  with assms show ?thesis by (simp add: js_add_def)
next
  case False
  with assms have r: "round_to_double (nat (p + 1)) = 1"
    by (simp add: js_add_def)
  show ?thesis
  proof (cases "nat (p + 1) < 9007199254740992")
    case True
    with r have "nat (p + 1) = 1" by (simp add: round_to_double_small)
    with False show ?thesis by simp
  next
    case big: False
    then have "2 \<le> round_to_double (nat (p + 1))"
      by (intro round_to_double_big) simp
    with r show ?thesis by simp
  qed
qed

subsection \<open>Printing a number\<close>

lemma shortest_decimal_cases:
  "0 < v \<Longrightarrow>
     shortest_decimal j v = v \<or> (0 < shortest_decimal j v \<and> 10 dvd shortest_decimal j v)"
proof (induction j)
  case 0
  show ?case by simp
next
  case (Suc j)
  define p :: nat where "p = 10 ^ Suc j"
  define lo where "lo = (v div p) * p"
  define hi where "hi = lo + p"
  define L where "L \<longleftrightarrow> round_to_double lo = v"
  define H where "H \<longleftrightarrow> round_to_double hi = v"
  have sd: "shortest_decimal (Suc j) v =
      (if L \<and> H then
         (if v - lo < hi - v then lo
          else if hi - v < v - lo then hi
          else if even (v div p) then lo else hi)
       else if L then lo
       else if H then hi
       else shortest_decimal j v)"
    unfolding L_def H_def hi_def lo_def p_def by (simp add: Let_def)
  have ten: "10 dvd p" by (simp add: p_def)
  have ppos: "0 < p" by (simp add: p_def)
  have hi: "0 < hi \<and> 10 dvd hi"
    using ten ppos by (simp add: hi_def lo_def)
  have lo: "0 < lo \<and> 10 dvd lo" if L
  proof -
    have "lo \<noteq> 0"
    proof
      assume "lo = 0"
      with that have "round_to_double 0 = v" by (simp add: L_def)
      with Suc.prems show False by (simp add: round_to_double_zero)
    qed
    with ten show ?thesis by (simp add: lo_def)
  qed
  show ?case
  proof (cases L)
    case True
    then have "shortest_decimal (Suc j) v = lo \<or> shortest_decimal (Suc j) v = hi"
      by (simp add: sd del: shortest_decimal.simps)
    with lo [OF True] hi show ?thesis by auto
  next
    case False
    show ?thesis
    proof (cases H)
      case True
      with False have "shortest_decimal (Suc j) v = hi"
        by (simp add: sd del: shortest_decimal.simps)
      with hi show ?thesis by simp
    next
      case noH: False
      with False have "shortest_decimal (Suc j) v = shortest_decimal j v"
        by (simp add: sd del: shortest_decimal.simps)
      with Suc.IH [OF Suc.prems] show ?thesis by simp
    qed
  qed
qed

lemma shortest_decimal_ge_10: "10 \<le> v \<Longrightarrow> 10 \<le> shortest_decimal j v"
proof -
  assume v: "10 \<le> v"
  then have "0 < v" by simp
  then have "shortest_decimal j v = v
      \<or> (0 < shortest_decimal j v \<and> 10 dvd shortest_decimal j v)"
    by (rule shortest_decimal_cases)
  then show ?thesis
  proof
    assume "shortest_decimal j v = v"
    with v show ?thesis by simp
  next
    assume "0 < shortest_decimal j v \<and> 10 dvd shortest_decimal j v"
    then show ?thesis by (auto dest: dvd_imp_le)
  qed
qed

lemma length_print_decimal: "10 \<le> y \<Longrightarrow> 2 \<le> length (print_decimal y)"
  using length_digits_ge2 [of y] by (simp add: print_decimal_def Let_def)

lemma print_decimal_exact: "y \<le> 9007199254740992 \<Longrightarrow> print_decimal y = digits y"
proof -
  assume "y \<le> 9007199254740992"
  then have "y < 10 ^ 16" by simp
  then have "length (digits y) \<le> 16" by (intro length_digits_le) simp_all
  then show ?thesis by (simp add: print_decimal_def Let_def)
qed

lemma number_string_exact: "v \<le> 9007199254740992 \<Longrightarrow> number_string v = digits v"
  by (simp add: number_string_def print_decimal_exact)

lemma length_number_string: "9007199254740992 < v \<Longrightarrow> 2 \<le> length (number_string v)"
  by (simp add: number_string_def length_print_decimal shortest_decimal_ge_10)

lemma toString_exact:
  "0 \<le> x \<Longrightarrow> x \<le> 9007199254740992 \<Longrightarrow> toString x = digits (nat x)"
  by (simp add: toString_def number_string_exact)

subsection \<open>The request\<close>

lemma request_url_eq:
  "request_url pg limit
     = API_BASE @ ''?page='' @ form_encode (toString (js_add pg 1))
       @ ''&limit='' @ form_encode (toString limit)"
  by (simp add: request_url_def form_encode_page form_encode_limit)

lemma request_url_exact:
  assumes "0 \<le> pg" and "pg < 9007199254740992" and "0 \<le> limit" and "limit \<le> 9007199254740992"
  shows "request_url pg limit
     = API_BASE @ ''?page='' @ digits (nat (pg + 1)) @ ''&limit='' @ digits (nat limit)"
proof -
  from assms(1,2) have "js_add pg 1 = pg + 1"
    by (intro js_add_exact) simp_all
  moreover from assms(1,2) have "toString (pg + 1) = digits (nat (pg + 1))"
    by (intro toString_exact) simp_all
  moreover from assms(3,4) have "toString limit = digits (nat limit)"
    by (rule toString_exact)
  ultimately show ?thesis
    by (simp add: request_url_eq form_encode_digits)
qed

lemma form_encode_toString_one:
  assumes "form_encode (toString y) = ''1''"
  shows "y = 1"
proof -
  consider (neg) "y < 0" | (exact) "0 \<le> y" "y \<le> 9007199254740992" | (big) "9007199254740992 < y"
    by linarith
  then show ?thesis
  proof cases
    case neg
    then have "form_encode (toString y) = CHR ''-'' # form_encode (number_string (nat (- y)))"
      by (simp add: toString_def form_encode_Cons form_encode_char_minus)
    with assms show ?thesis by simp
  next
    case exact
    then have "form_encode (toString y) = digits (nat y)"
      by (simp add: toString_exact form_encode_digits)
    moreover have "digits 1 = ''1''" by code_simp
    ultimately have "digits (nat y) = digits 1" using assms by simp
    then have "nat y = 1" by (rule digits_inject)
    with exact show ?thesis by simp
  next
    case big
    then have "2 \<le> length (number_string (nat y))"
      by (intro length_number_string) simp
    moreover from big have "toString y = number_string (nat y)"
      by (simp add: toString_def)
    ultimately have "2 \<le> length (form_encode (toString y))"
      using length_form_encode [of "toString y"] by simp
    with assms show ?thesis by simp
  qed
qed

lemma request_url_page_4:
  "request_url 3 rowsPerPage = ''https://api.artic.edu/api/v1/artworks?page=4&limit=12''"
  by code_simp

lemma request_url_page_1:
  "request_url 0 rowsPerPage = ''https://api.artic.edu/api/v1/artworks?page=1&limit=12''"
  by code_simp

lemma request_url_first_page:
  "request_url 0 rowsPerPage = request_url p rowsPerPage \<longleftrightarrow> p = 0"
proof
  assume eq: "request_url 0 rowsPerPage = request_url p rowsPerPage"
  have one: "form_encode (toString (js_add 0 1)) = ''1''" by code_simp
  from eq have "form_encode (toString (js_add p 1)) = form_encode (toString (js_add 0 1))"
    by (simp add: request_url_eq)
  then have "js_add p 1 = 1"
    by (intro form_encode_toString_one) (simp add: one)
  then show "p = 0" by (rule js_add_one_is_one)
next
  assume "p = 0"
  then show "request_url 0 rowsPerPage = request_url p rowsPerPage" by simp
qed

lemma fetchData_requests: "fst (fetchData net pg limit h) = [request_url pg limit]"
  by (simp add: fetchData_def Let_def)

lemma fetchData_throws:
  "throws (net (request_url pg limit)) \<Longrightarrow>
     snd (fetchData net pg limit h) = h\<lparr>loading := False, error := Some fetch_error_message\<rparr>"
  by (cases "net (request_url pg limit)")
     (auto simp add: fetchData_def Let_def split: body.splits)

lemma fetchData_object:
  "net (request_url pg limit) = Response True (Object result) \<Longrightarrow>
     snd (fetchData net pg limit h) =
       h\<lparr>data := (case result_data result of Value d \<Rightarrow> d | _ \<Rightarrow> []),
         totalRecords := (case result_pagination result of
                            Value p \<Rightarrow> (case total p of Value n \<Rightarrow> n | _ \<Rightarrow> 0)
                          | _ \<Rightarrow> 0),
         loading := False, error := None\<rparr>"
  by (simp add: fetchData_def Let_def split: js_field.splits)

subsection \<open>A page size printed with an exponent\<close>

lemma round_to_double_1e21: "round_to_double 1000000000000000000000 = 1000000000000000000000"
  by code_simp

lemma round_to_double_1e22: "round_to_double 10000000000000000000000 = 10000000000000000000000"
  by code_simp

lemma round_to_double_2e21: "round_to_double 2000000000000000000000 = 2000000000000000000000"
  by code_simp

lemma shortest_decimal_1e21:
  "shortest_decimal 22 1000000000000000000000 = 1000000000000000000000"
proof -
  have "shortest_decimal 22 1000000000000000000000
      = shortest_decimal 21 1000000000000000000000"
    using shortest_decimal.simps(2) [of 21 1000000000000000000000]
    by (simp add: Let_def round_to_double_zero round_to_double_1e22)
  moreover have "shortest_decimal 21 1000000000000000000000 = 1000000000000000000000"
    using shortest_decimal.simps(2) [of 20 1000000000000000000000]
    by (simp add: Let_def round_to_double_1e21 round_to_double_2e21)
  ultimately show ?thesis by simp
qed

lemma toString_1e21: "toString 1000000000000000000000 = ''1e+21''"
proof -
  have len: "length (digits 1000000000000000000000) = 22" by code_simp
  have pd: "print_decimal 1000000000000000000000 = ''1e+21''" by code_simp
  show ?thesis
    by (simp add: toString_def number_string_def len shortest_decimal_1e21 pd)
qed

lemma request_url_1e21:
  "request_url 0 1000000000000000000000
     = ''https://api.artic.edu/api/v1/artworks?page=1&limit=1e%2B21''"
proof -
  have one: "form_encode (toString (js_add 0 1)) = ''1''" by code_simp
  have enc: "form_encode ''1e+21'' = ''1e%2B21''" by code_simp
  show ?thesis
    by (simp add: request_url_eq one toString_1e21 enc API_BASE_def)
qed

text \<open>
  Claim C7, as the code has it. For a page index \<open>P\<close> from 0 up to, but not including,
  \<open>2 ^ 53\<close> and a page size \<open>S\<close> from 1 up to \<open>2 ^ 53\<close>, \<open>fetchData\<close> sends one
  request, to the listing address with the query \<open>page=P+1&limit=S\<close>, both numbers in
  plain decimal digits that read back as \<open>P + 1\<close> and \<open>S\<close>.
\<close>

theorem fetchData_request_page_limit:
  "0 \<le> P \<Longrightarrow> P < 9007199254740992 \<Longrightarrow> 0 < S \<Longrightarrow> S \<le> 9007199254740992 \<Longrightarrow>
     fst (fetchData net P S h)
       = [API_BASE @ ''?page='' @ digits (nat (P + 1)) @ ''&limit='' @ digits (nat S)]
     \<and> parse_decimal (digits (nat (P + 1))) = Some (nat (P + 1))
     \<and> parse_decimal (digits (nat S)) = Some (nat S)"
  by (simp add: fetchData_requests request_url_exact parse_decimal_digits)

theorem fetchData_request_page_limit_witness:
  "fst (fetchData (\<lambda>url. NetworkError) 3 12 initial_hook)
     = [''https://api.artic.edu/api/v1/artworks?page=4&limit=12'']"
proof -
  have a: "digits 4 = ''4''" by code_simp
  have b: "digits 12 = ''12''" by code_simp
  show ?thesis
    using fetchData_request_page_limit [of 3 12 "\<lambda>url. NetworkError" initial_hook]
    by (simp add: a b API_BASE_def)
qed

text \<open>
  The claim C7 as it is written fails on the code: at the page index
  \<open>2 ^ 53 = 9007199254740992\<close> with the page size 12, the sum \<open>page + 1\<close> of line 51 is
  rounded back to \<open>2 ^ 53\<close>, and the request asks for \<open>page=9007199254740992\<close>, which
  is \<open>P\<close> and not \<open>P + 1\<close>.
\<close>

theorem fetchData_request_page_limit_counterexample:
  "fst (fetchData (\<lambda>url. NetworkError) 9007199254740992 12 initial_hook)
     = [''https://api.artic.edu/api/v1/artworks?page=9007199254740992&limit=12'']
   \<and> fst (fetchData (\<lambda>url. NetworkError) 9007199254740992 12 initial_hook)
     \<noteq> [''https://api.artic.edu/api/v1/artworks?page=9007199254740993&limit=12'']"
proof -
  have "request_url 9007199254740992 12
      = ''https://api.artic.edu/api/v1/artworks?page=9007199254740992&limit=12''"
    by code_simp
  then show ?thesis by (simp add: fetchData_requests)
qed

text \<open>
  Claim C5, as the code has it. When the fetch throws (transport failure, a status that is
  not a success, or a body that cannot be read), \<open>fetchData\<close> sets the message
  \<open>Failed to fetch artworks\<close>, which is not empty, clears the loading flag, and leaves
  the row list and the total at the values they had; after a failure the row list is
  empty when it was empty before, as it is on the first load.
\<close>

theorem fetchData_failure_keeps_rows_and_total:
  "throws (net (request_url pg limit)) \<Longrightarrow>
     error (snd (fetchData net pg limit h)) = Some fetch_error_message
     \<and> fetch_error_message \<noteq> []
     \<and> loading (snd (fetchData net pg limit h)) = False
     \<and> totalRecords (snd (fetchData net pg limit h)) = totalRecords h
     \<and> data (snd (fetchData net pg limit h)) = data h
     \<and> data (snd (fetchData net pg limit initial_hook)) = []"
proof -
  assume t: "throws (net (request_url pg limit))"
  have "fetch_error_message \<noteq> []"
    by (simp add: fetch_error_message_def)
  moreover have "data (snd (fetchData net pg limit initial_hook)) = data initial_hook"
    using t by (simp add: fetchData_throws [of net pg limit initial_hook])
  then have "data (snd (fetchData net pg limit initial_hook)) = []"
    by (simp add: initial_hook_def)
  ultimately show ?thesis
    using t by (simp add: fetchData_throws [of net pg limit h])
qed

theorem fetchData_failure_keeps_rows_and_total_witness:
  "error (snd (fetchData (\<lambda>url. Response False Unparsable) 1 rowsPerPage (hook example_view)))
     = Some ''Failed to fetch artworks''
   \<and> totalRecords (snd (fetchData (\<lambda>url. Response False Unparsable) 1 rowsPerPage
       (hook example_view))) = 100
   \<and> data (snd (fetchData (\<lambda>url. Response False Unparsable) 1 rowsPerPage initial_hook)) = []"
proof -
  show ?thesis
    using fetchData_failure_keeps_rows_and_total
      [of "\<lambda>url. Response False Unparsable" 1 rowsPerPage "hook example_view"]
    by (simp add: example_view_def fetch_error_message_def)
qed

text \<open>
  The claim C5 as it is written fails on the code: after a page with rows has been
  loaded, a fetch that fails, by a rejected \<open>fetch\<close> or by a status that is not a
  success, leaves those rows in the row list next to the error message.
\<close>

theorem fetchData_failure_empties_rows_counterexample:
  "data (snd (fetchData (\<lambda>url. NetworkError) 1 rowsPerPage (hook example_view)))
     = [example_row 1, example_row 2, example_row 3]
   \<and> error (snd (fetchData (\<lambda>url. NetworkError) 1 rowsPerPage (hook example_view)))
     = Some ''Failed to fetch artworks''
   \<and> data (snd (fetchData (\<lambda>url. Response False Unparsable) 1 rowsPerPage (hook example_view)))
     \<noteq> []
   \<and> error (snd (fetchData (\<lambda>url. Response False Unparsable) 1 rowsPerPage (hook example_view)))
     \<noteq> None"
  by (simp add: fetchData_def Let_def example_view_def fetch_error_message_def)

text \<open>
  Claim C10. When the request succeeds and the body is an object, no error message is
  set and the loading flag is cleared; a \<open>data\<close> that is absent or \<open>null\<close> gives the
  empty row list, and a \<open>pagination\<close> or a \<open>total\<close> that is absent or \<open>null\<close> gives
  the total zero. Fields that are present are stored as they are.
\<close>

theorem fetchData_missing_fields_default:
  "net (request_url pg limit) = Response True (Object result) \<Longrightarrow>
     error (snd (fetchData net pg limit h)) = None
     \<and> loading (snd (fetchData net pg limit h)) = False
     \<and> (result_data result = Undefined \<or> result_data result = Null \<longrightarrow>
          data (snd (fetchData net pg limit h)) = [])
     \<and> (result_pagination result = Undefined \<or> result_pagination result = Null
          \<or> (\<exists>p. result_pagination result = Value p \<and> (total p = Undefined \<or> total p = Null))
          \<longrightarrow> totalRecords (snd (fetchData net pg limit h)) = 0)
     \<and> (\<forall>d. result_data result = Value d \<longrightarrow> data (snd (fetchData net pg limit h)) = d)
     \<and> (\<forall>p n. result_pagination result = Value p \<and> total p = Value n \<longrightarrow>
          totalRecords (snd (fetchData net pg limit h)) = n)"
proof -
  assume ok: "net (request_url pg limit) = Response True (Object result)"
  have st: "snd (fetchData net pg limit h) =
       h\<lparr>data := (case result_data result of Value d \<Rightarrow> d | _ \<Rightarrow> []),
         totalRecords := (case result_pagination result of
                            Value p \<Rightarrow> (case total p of Value n \<Rightarrow> n | _ \<Rightarrow> 0)
                          | _ \<Rightarrow> 0),
         loading := False, error := None\<rparr>"
    using ok by (rule fetchData_object [of net pg limit result h])
  have e: "error (snd (fetchData net pg limit h)) = None"
    by (simp add: st)
  have l: "loading (snd (fetchData net pg limit h)) = False"
    by (simp add: st)
  have d0: "result_data result = Undefined \<or> result_data result = Null \<longrightarrow>
      data (snd (fetchData net pg limit h)) = []"
    by (auto simp add: st)
  have t0: "result_pagination result = Undefined \<or> result_pagination result = Null
      \<or> (\<exists>p. result_pagination result = Value p \<and> (total p = Undefined \<or> total p = Null))
      \<longrightarrow> totalRecords (snd (fetchData net pg limit h)) = 0"
    by (auto simp add: st)
  have d1: "\<forall>d. result_data result = Value d \<longrightarrow> data (snd (fetchData net pg limit h)) = d"
    by (simp add: st)
  have t1: "\<forall>p n. result_pagination result = Value p \<and> total p = Value n \<longrightarrow>
      totalRecords (snd (fetchData net pg limit h)) = n"
    by (simp add: st)
  from e l d0 t0 d1 t1 show ?thesis by blast
qed

theorem fetchData_missing_fields_default_witness:
  "error (snd (fetchData
       (\<lambda>url. Response True (Object \<lparr>result_data = Null, result_pagination = Undefined\<rparr>))
       2 rowsPerPage (hook example_view))) = None
   \<and> data (snd (fetchData
       (\<lambda>url. Response True (Object \<lparr>result_data = Null, result_pagination = Undefined\<rparr>))
       2 rowsPerPage (hook example_view))) = []
   \<and> totalRecords (snd (fetchData
       (\<lambda>url. Response True (Object \<lparr>result_data = Null, result_pagination = Undefined\<rparr>))
       2 rowsPerPage (hook example_view))) = 0"
proof -
  let ?result = "\<lparr>result_data = Null, result_pagination = Undefined\<rparr>"
  show ?thesis
    using fetchData_missing_fields_default
      [of "\<lambda>url. Response True (Object ?result)" 2 rowsPerPage ?result "hook example_view"]
    by simp
qed

section \<open>Properties of the view\<close>

lemma render_error:
  "error (hook s) = Some msg \<Longrightarrow> msg \<noteq> [] \<Longrightarrow> render s = ErrorPanel msg"
  by (simp add: render_def)

lemma retry_requests: "fst (retry net s) = [request_url 0 rowsPerPage]"
  by (simp add: retry_def mount_def initial_view_def fetchData_requests)

lemma retry_page: "page (snd (retry net s)) = 0"
  by (simp add: retry_def mount_def initial_view_def)

text \<open>
  Claim C6, as the code has it. When the fetch of the current page throws, the component
  returns the error card with the message and no table. The retry button reloads the
  document: the component starts again from its initial state and sends one request, for
  page index 0 with the fixed page size. That is the request of the page that failed
  exactly when that page was page 0.
\<close>

theorem retry_reloads_first_page:
  "throws (net (request_url (page s) rowsPerPage)) \<Longrightarrow>
     render (s\<lparr>hook := snd (fetchData net (page s) rowsPerPage (hook s))\<rparr>)
       = ErrorPanel fetch_error_message
     \<and> fst (retry net' (s\<lparr>hook := snd (fetchData net (page s) rowsPerPage (hook s))\<rparr>))
       = [request_url 0 rowsPerPage]
     \<and> page (snd (retry net' (s\<lparr>hook := snd (fetchData net (page s) rowsPerPage (hook s))\<rparr>)))
       = 0
     \<and> (request_url 0 rowsPerPage = request_url (page s) rowsPerPage \<longleftrightarrow> page s = 0)"
proof -
  assume t: "throws (net (request_url (page s) rowsPerPage))"
  let ?s = "s\<lparr>hook := snd (fetchData net (page s) rowsPerPage (hook s))\<rparr>"
  have "error (hook ?s) = Some fetch_error_message"
    using t by (simp add: fetchData_throws [of net "page s" rowsPerPage "hook s"])
  moreover have "fetch_error_message \<noteq> []"
    by (simp add: fetch_error_message_def)
  ultimately have panel: "render ?s = ErrorPanel fetch_error_message"
    by (rule render_error)
  have same: "request_url 0 rowsPerPage = request_url (page s) rowsPerPage \<longleftrightarrow> page s = 0"
    by (rule request_url_first_page)
  from panel same show ?thesis
    by (simp only: retry_requests retry_page simp_thms)
qed

theorem retry_reloads_first_page_witness:
  "render (example_view\<lparr>page := 3,
       hook := snd (fetchData (\<lambda>url. Response False Unparsable) 3 rowsPerPage (hook example_view))\<rparr>)
     = ErrorPanel ''Failed to fetch artworks''
   \<and> fst (retry (\<lambda>url. NetworkError) (example_view\<lparr>page := 3,
       hook := snd (fetchData (\<lambda>url. Response False Unparsable) 3 rowsPerPage (hook example_view))\<rparr>))
     = [''https://api.artic.edu/api/v1/artworks?page=1&limit=12'']"
proof -
  have p: "page (example_view\<lparr>page := 3\<rparr>) = 3"
    and h: "hook (example_view\<lparr>page := 3\<rparr>) = hook example_view"
    by simp_all
  show ?thesis
    using retry_reloads_first_page
      [of "\<lambda>url. Response False Unparsable" "example_view\<lparr>page := 3\<rparr>" "\<lambda>url. NetworkError"]
    by (simp add: p h request_url_page_1 fetch_error_message_def)
qed

text \<open>
  The claim C6 as it is written fails on the code: when the fetch of page index 3 fails,
  the error card is shown, and the retry button asks for page index 0 (query \<open>page=1\<close>),
  not for page index 3 again (query \<open>page=4\<close>).
\<close>

theorem retry_same_page_counterexample:
  "fst (onPage (\<lambda>url. NetworkError) (Some 3) example_view)
     = [''https://api.artic.edu/api/v1/artworks?page=4&limit=12'']
   \<and> render (snd (onPage (\<lambda>url. NetworkError) (Some 3) example_view))
     = ErrorPanel ''Failed to fetch artworks''
   \<and> fst (retry (\<lambda>url. NetworkError) (snd (onPage (\<lambda>url. NetworkError) (Some 3) example_view)))
     = [''https://api.artic.edu/api/v1/artworks?page=1&limit=12'']
   \<and> fst (retry (\<lambda>url. NetworkError) (snd (onPage (\<lambda>url. NetworkError) (Some 3) example_view)))
     \<noteq> fst (onPage (\<lambda>url. NetworkError) (Some 3) example_view)"
proof -
  have a: "fst (onPage (\<lambda>url. NetworkError) (Some 3) example_view)
     = [''https://api.artic.edu/api/v1/artworks?page=4&limit=12'']"
    by (simp add: onPage_def onPageChange_def Let_def example_view_def fetchData_requests
        request_url_page_4)
  have b: "render (snd (onPage (\<lambda>url. NetworkError) (Some 3) example_view))
     = ErrorPanel ''Failed to fetch artworks''"
    by (simp add: onPage_def onPageChange_def Let_def example_view_def fetchData_def
        render_def fetch_error_message_def)
  have c: "fst (retry (\<lambda>url. NetworkError) (snd (onPage (\<lambda>url. NetworkError) (Some 3) example_view)))
     = [''https://api.artic.edu/api/v1/artworks?page=1&limit=12'']"
    by (simp only: retry_requests request_url_page_1)
  from a b c show ?thesis by simp
qed

end
